theory Spec2Isabelle
  imports Complex_Main "HOL-Library.Char_ord" "HOL-Library.List_Lexorder" "HOL-Library.Multiset"
begin

section \<open>Values read from an annotation file\<close>

text \<open>
  \<^verbatim>\<open>json.load\<close> turns an annotation file into Python values: \<^verbatim>\<open>None\<close>, booleans,
  integers, floats, strings, lists and dictionaries with string keys. A dictionary is kept
  as the list of its items in insertion order. Floats are modelled by the real number
  they denote, so the arithmetic below is exact; a string is a list of characters.
\<close>

datatype json =
    JNull
  | JBool bool
  | JInt int
  | JFloat real
  | JStr string
  | JArr "json list"
  | JObj "(string \<times> json) list"

text \<open>The exceptions the modelled functions can raise.\<close>

datatype error =
    KeyError
  | TypeError
  | AttributeError
  | IndexError
  | ZeroDivisionError
  | UnboundLocalError
  | ValueError
  | NotAValidJSON
  | JSONDecodeError
  | FileNotFoundError
  | IsADirectoryError

text \<open>Sequencing of statements that may raise: the first exception ends the run.\<close>

definition bind :: "error + 'a \<Rightarrow> ('a \<Rightarrow> error + 'b) \<Rightarrow> error + 'b" where
  "bind m f = (case m of Inl e \<Rightarrow> Inl e | Inr x \<Rightarrow> f x)"

text \<open>Python sequence indexing \<^verbatim>\<open>xs[i]\<close>: negative indices count from the end.\<close>

definition py_index :: "'a list \<Rightarrow> int \<Rightarrow> error + 'a" where
  "py_index xs i =
     (if 0 \<le> i \<and> i < int (length xs) then Inr (xs ! nat i)
      else if i < 0 \<and> - int (length xs) \<le> i then Inr (xs ! nat (int (length xs) + i))
      else Inl IndexError)"

text \<open>
  The subscript \<^verbatim>\<open>obj[key]\<close>. A dictionary raises \<^verbatim>\<open>TypeError\<close> on an unhashable key and
  \<^verbatim>\<open>KeyError\<close> on a missing one (its keys are strings, so only a string can be found);
  lists and strings take integers (a boolean is an integer); nothing else can be subscripted.
\<close>

fun getitem :: "json \<Rightarrow> json \<Rightarrow> error + json" where
  "getitem (JObj kvs) (JStr k) = (case map_of kvs k of None \<Rightarrow> Inl KeyError | Some v \<Rightarrow> Inr v)"
| "getitem (JObj kvs) (JArr ys) = Inl TypeError"
| "getitem (JObj kvs) (JObj ys) = Inl TypeError"
| "getitem (JObj kvs) k = Inl KeyError"
| "getitem (JArr xs) (JInt i) = py_index xs i"
| "getitem (JArr xs) (JBool b) = py_index xs (if b then 1 else 0)"
| "getitem (JArr xs) k = Inl TypeError"
| "getitem (JStr s) (JInt i) = bind (py_index s i) (\<lambda>c. Inr (JStr [c]))"
| "getitem (JStr s) (JBool b) = bind (py_index s (if b then 1 else 0)) (\<lambda>c. Inr (JStr [c]))"
| "getitem (JStr s) k = Inl TypeError"
| "getitem v k = Inl TypeError"

text \<open>\<^verbatim>\<open>len(v)\<close>.\<close>

fun py_len :: "json \<Rightarrow> error + nat" where
  "py_len (JArr xs) = Inr (length xs)"
| "py_len (JStr s) = Inr (length s)"
| "py_len (JObj kvs) = Inr (length kvs)"
| "py_len v = Inl TypeError"

text \<open>\<^verbatim>\<open>for x in v\<close>: the values a loop over \<open>v\<close> visits (the keys of a dictionary).\<close>

fun py_iter :: "json \<Rightarrow> error + json list" where
  "py_iter (JObj kvs) = Inr (map (\<lambda>kv. JStr (fst kv)) kvs)"
| "py_iter (JArr xs) = Inr xs"
| "py_iter (JStr s) = Inr (map (\<lambda>c. JStr [c]) s)"
| "py_iter v = Inl TypeError"

text \<open>\<^verbatim>\<open>d.items()\<close> exists on dictionaries only.\<close>

fun py_items :: "json \<Rightarrow> error + (string \<times> json) list" where
  "py_items (JObj kvs) = Inr kvs"
| "py_items v = Inl AttributeError"

text \<open>Lists and dictionaries cannot be dictionary keys.\<close>

fun hashable :: "json \<Rightarrow> bool" where
  "hashable (JArr xs) = False"
| "hashable (JObj kvs) = False"
| "hashable v = True"

text \<open>
  \<^verbatim>\<open>d.get(key)\<close> on a dictionary with string keys, for a hashable key: the value, or \<^verbatim>\<open>None\<close>.
\<close>

fun dict_get :: "(string \<times> json) list \<Rightarrow> json \<Rightarrow> json" where
  "dict_get d (JStr k) = (case map_of d k of None \<Rightarrow> JNull | Some v \<Rightarrow> v)"
| "dict_get d k = JNull"

text \<open>
  \<^verbatim>\<open>str(v)\<close>. A string is itself, \<^verbatim>\<open>None\<close> and the booleans print their names; the text of
  a number, a list or a dictionary is \<^verbatim>\<open>repr\<close>, a parameter of the model.
\<close>

fun py_str :: "(json \<Rightarrow> string) \<Rightarrow> json \<Rightarrow> string" where
  "py_str repr (JStr s) = s"
| "py_str repr JNull = ''None''"
| "py_str repr (JBool b) = (if b then ''True'' else ''False'')"
| "py_str repr v = repr v"

section \<open>The annotation reader (annotation\_reader.py)\<close>

text \<open>
  \<^verbatim>\<open>action_dict\<close>: label to the list of \<^verbatim>\<open>(t_start, t_end)\<close> tuples, in insertion order.
  The tuple holds the two values of the time field as they were read.
\<close>

type_synonym action_dict = "(string \<times> (json \<times> json) list) list"

text \<open>
  \<^verbatim>\<open>
  if _action in self.action_dict:
      self.action_dict[_action].append((_t_start, _t_end))
  else:
      self.action_dict[_action] = [(_t_start, _t_end)]
  \<close>
\<close>

fun append_interval :: "action_dict \<Rightarrow> string \<Rightarrow> json \<times> json \<Rightarrow> action_dict" where
  "append_interval [] a iv = [(a, [iv])]"
| "append_interval ((k, ivs) # rest) a iv =
     (if k = a then (k, ivs @ [iv]) # rest else (k, ivs) # append_interval rest a iv)"

text \<open>
  \<^verbatim>\<open>
  try:
      _action = str(id_to_action_dict.get(entry["av"]["1"]))
  except Exception:
      _action = str(entry["av"]["1"])
  \<close>
  \<^verbatim>\<open>get\<close> raises only on an unhashable key; a subscript that raised inside \<^verbatim>\<open>try\<close>
  raises again in the handler.
\<close>

definition resolve_action ::
  "(json \<Rightarrow> string) \<Rightarrow> (string \<times> json) list \<Rightarrow> json \<Rightarrow> error + string" where
  "resolve_action repr id_to_action_dict entry =
     bind (getitem entry (JStr ''av'')) (\<lambda>av.
     bind (getitem av (JStr ''1'')) (\<lambda>code.
       if hashable code then Inr (py_str repr (dict_get id_to_action_dict code))
       else Inr (py_str repr code)))"

text \<open>The body of the loop over the metadata records, for one \<open>entry\<close>.\<close>

definition process_entry ::
  "(json \<Rightarrow> string) \<Rightarrow> (string \<times> json) list \<Rightarrow> action_dict \<Rightarrow> json \<Rightarrow> error + action_dict" where
  "process_entry repr id_to_action_dict action_dict entry =
     bind (resolve_action repr id_to_action_dict entry) (\<lambda>action.
     bind (getitem entry (JStr ''z'')) (\<lambda>z.
     bind (py_len z) (\<lambda>n.
       if n = 2 then
         bind (getitem z (JInt 0)) (\<lambda>t_start.
         bind (getitem z (JInt 1)) (\<lambda>t_end.
           Inr (append_interval action_dict action (t_start, t_end))))
       else Inr action_dict)))"

text \<open>
  \<^verbatim>\<open>
  for annotation in annotation_dict["metadata"]:
      entry = annotation_dict["metadata"][annotation]
      ...
  \<close>
\<close>

fun metadata_loop ::
  "(json \<Rightarrow> string) \<Rightarrow> (string \<times> json) list \<Rightarrow> json \<Rightarrow> action_dict \<Rightarrow> json list
     \<Rightarrow> error + action_dict" where
  "metadata_loop repr tbl metadata action_dict [] = Inr action_dict"
| "metadata_loop repr tbl metadata action_dict (annotation # rest) =
     bind (getitem metadata annotation) (\<lambda>entry.
     bind (process_entry repr tbl action_dict entry) (\<lambda>action_dict'.
       metadata_loop repr tbl metadata action_dict' rest))"

text \<open>
  \<^verbatim>\<open>extract_annotations\<close>, on the instance's \<^verbatim>\<open>action_dict\<close> and the loaded document; the
  result is the instance's updated \<^verbatim>\<open>action_dict\<close>, which is also what the method returns.
  A fresh instance has the empty dictionary. The counter \<^verbatim>\<open>number_of_actions\<close> only feeds
  the log and is left out.
\<close>

definition extract_annotations ::
  "(json \<Rightarrow> string) \<Rightarrow> action_dict \<Rightarrow> json \<Rightarrow> error + action_dict" where
  "extract_annotations repr action_dict annotation_dict =
     bind (getitem annotation_dict (JStr ''attribute'')) (\<lambda>attribute.
     bind (getitem attribute (JStr ''1'')) (\<lambda>attribute1.
     bind (getitem attribute1 (JStr ''options'')) (\<lambda>options.
     bind (py_items options) (\<lambda>id_to_action_dict.
     bind (getitem annotation_dict (JStr ''metadata'')) (\<lambda>metadata.
     bind (py_iter metadata) (\<lambda>annotations.
       metadata_loop repr id_to_action_dict metadata action_dict annotations))))))"

section \<open>Helper functions (utils.py)\<close>

text \<open>
  A path is the list of its components; a file name is taken as one component.
\<close>

type_synonym path = "string list"

text \<open>The decimal digits of a number, and the format \<^verbatim>\<open>{n:03}\<close>: zero-padded to three digits.\<close>

fun decimal :: "nat \<Rightarrow> string" where
  "decimal n =
     (if n < 10 then [''0123456789'' ! n]
      else decimal (n div 10) @ [''0123456789'' ! (n mod 10)])"

declare decimal.simps [simp del]

definition format03 :: "nat \<Rightarrow> string" where
  "format03 n = replicate (3 - length (decimal n)) (CHR ''0'') @ decimal n"

text \<open>\<^verbatim>\<open>f"{uid}_{action}_{action_index:03}_{chunk_index:03}.mp4"\<close>\<close>

definition construct_video_filename :: "string \<Rightarrow> string \<Rightarrow> nat \<Rightarrow> nat \<Rightarrow> string" where
  "construct_video_filename uid action action_index chunk_index =
     uid @ ''_'' @ action @ ''_'' @ format03 action_index @ ''_'' @ format03 chunk_index @ ''.mp4''"

text \<open>
  \<^verbatim>\<open>input_file.relative_to(root)\<close> raises \<^verbatim>\<open>ValueError\<close> unless the root is a prefix of the path.
\<close>

definition relative_to :: "path \<Rightarrow> path \<Rightarrow> error + path" where
  "relative_to input_file root_path =
     (if take (length root_path) input_file = root_path
      then Inr (drop (length root_path) input_file)
      else Inl ValueError)"

definition construct_preserved_output_path :: "path \<Rightarrow> path \<Rightarrow> path \<Rightarrow> string \<Rightarrow> error + path" where
  "construct_preserved_output_path root_path input_file output_folder output_file =
     bind (relative_to input_file root_path) (\<lambda>relative_video_path.
       Inr (output_folder @ butlast relative_video_path @ [output_file]))"

section \<open>The video processor (video\_processor.py)\<close>

text \<open>
  The settings the modelled code reads. The frame rate and the codec are only handed to
  the video library and are left out; the library itself is taken to succeed, and each
  clip it is asked to write is recorded.
\<close>

record settings =
  data_path :: path
  output_path :: path
  preserve_folder_structure :: bool
  clip_length :: real

text \<open>
  One value of \<^verbatim>\<open>self.videos\<close>: the two paths, and the dictionary under the key
  \<^verbatim>\<open>"clips"\<close> once \<^verbatim>\<open>create_clips\<close> has made it (label to the list of clip file names).
\<close>

record video =
  annotation_path :: path
  video_path :: path
  clips :: "(string \<times> string list) list option"

text \<open>
  The number a Python value stands for in arithmetic; a boolean counts as 0 or 1, and
  anything else raises \<^verbatim>\<open>TypeError\<close> when subtracted.
\<close>

fun py_num :: "json \<Rightarrow> real option" where
  "py_num (JInt i) = Some (of_int i)"
| "py_num (JFloat q) = Some q"
| "py_num (JBool b) = Some (if b then 1 else 0)"
| "py_num v = None"

text \<open>
  \<^verbatim>\<open>self.videos\<close> and \<^verbatim>\<open>self.annotations\<close> are keyed by the project identifier, whatever
  hashable value the file declares. Python's dictionaries take numerically equal keys for
  the same key; an assignment to a key that is present keeps its place and the key.
\<close>

definition key_eq :: "json \<Rightarrow> json \<Rightarrow> bool" where
  "key_eq a b =
     (case (py_num a, py_num b) of
        (Some x, Some y) \<Rightarrow> x = y
      | (None, None) \<Rightarrow> a = b
      | _ \<Rightarrow> False)"

fun dict_lookup :: "(json \<times> 'v) list \<Rightarrow> json \<Rightarrow> error + 'v" where
  "dict_lookup [] k = Inl KeyError"
| "dict_lookup ((k', v) # rest) k = (if key_eq k' k then Inr v else dict_lookup rest k)"

fun dict_set :: "(json \<times> 'v) list \<Rightarrow> json \<Rightarrow> 'v \<Rightarrow> (json \<times> 'v) list" where
  "dict_set [] k v = [(k, v)]"
| "dict_set ((k', v') # rest) k v =
     (if key_eq k' k then (k', v) # rest else (k', v') # dict_set rest k v)"

text \<open>The same assignment for a dictionary with string keys.\<close>

fun str_dict_set :: "(string \<times> 'v) list \<Rightarrow> string \<Rightarrow> 'v \<Rightarrow> (string \<times> 'v) list" where
  "str_dict_set [] k v = [(k, v)]"
| "str_dict_set ((k', v') # rest) k v =
     (if k' = k then (k', v) # rest else (k', v') # str_dict_set rest k v)"

subsection \<open>discover\_files\<close>

text \<open>
  The directory tree: the entries \<^verbatim>\<open>rglob("*")\<close> meets, in the order it lists them, each a
  directory or a file. A file carries the value \<^verbatim>\<open>json.load\<close> reads from it, or \<open>None\<close>
  when its text is not JSON.
\<close>

datatype node = Dir | File "json option"

type_synonym filesystem = "(path \<times> node) list"

definition is_dir :: "filesystem \<Rightarrow> path \<Rightarrow> bool" where
  "is_dir fs p = (map_of fs p = Some Dir)"

text \<open>The entries below the root; none of them is the empty path.\<close>

definition rglob :: "filesystem \<Rightarrow> path \<Rightarrow> (path \<times> node) list" where
  "rglob fs root_path =
     filter (\<lambda>item. length root_path < length (fst item)
                    \<and> take (length root_path) (fst item) = root_path) fs"

text \<open>
  \<^verbatim>\<open>Path.suffix\<close> and \<^verbatim>\<open>Path.stem\<close> of a file name: the name is split at its last dot,
  unless that dot is the first or the last character.
\<close>

definition suffix :: "string \<Rightarrow> string" where
  "suffix name =
     (let tail = takeWhile (\<lambda>c. c \<noteq> CHR ''.'') (rev name)
      in if CHR ''.'' \<in> set name \<and> tail \<noteq> [] \<and> Suc (length tail) < length name
         then CHR ''.'' # rev tail else [])"

definition stem :: "string \<Rightarrow> string" where
  "stem name = take (length name - length (suffix name)) name"

text \<open>
  \<^verbatim>\<open>check_valid_annotation_file\<close>: a file that is not JSON raises; \<^verbatim>\<open>keys()\<close> exists on
  a dictionary only.
\<close>

definition check_valid_annotation_file :: "json option \<Rightarrow> error + bool \<times> json" where
  "check_valid_annotation_file content =
     (case content of
        None \<Rightarrow> Inl NotAValidJSON
      | Some (JObj dict_to_check) \<Rightarrow>
          (let is_valid = (map_of dict_to_check ''project'' \<noteq> None
                           \<and> map_of dict_to_check ''attribute'' \<noteq> None
                           \<and> map_of dict_to_check ''file'' \<noteq> None
                           \<and> map_of dict_to_check ''metadata'' \<noteq> None)
           in Inr (is_valid,
                   JObj (if is_valid
                         then filter (\<lambda>kv. fst kv = ''project'' \<or> fst kv = ''file'') dict_to_check
                         else [])))
      | Some v \<Rightarrow> Inl AttributeError)"

text \<open>
  The body of \<^verbatim>\<open>for item in root.rglob("*")\<close>. \<^verbatim>\<open>Path(...)\<close> takes strings only, and the
  assignment \<^verbatim>\<open>self.videos[uid] = ...\<close> needs a hashable \<^verbatim>\<open>uid\<close>. The counters of files
  and directories only feed the log.
\<close>

definition discover_item ::
  "filesystem \<Rightarrow> (json \<times> video) list \<Rightarrow> path \<times> node \<Rightarrow> error + (json \<times> video) list" where
  "discover_item fs vids item =
     (case snd item of
        Dir \<Rightarrow> Inr vids
      | File content \<Rightarrow>
          if suffix (last (fst item)) = ''.json'' then
            bind (check_valid_annotation_file content) (\<lambda>valid_annotation.
              if fst valid_annotation then
                bind (getitem (snd valid_annotation) (JStr ''project'')) (\<lambda>project.
                bind (getitem project (JStr ''pid'')) (\<lambda>uid.
                bind (getitem (snd valid_annotation) (JStr ''file'')) (\<lambda>file.
                bind (getitem file (JStr ''1'')) (\<lambda>file1.
                bind (getitem file1 (JStr ''fname'')) (\<lambda>video_file_name.
                  if is_dir fs (butlast (fst item) @ [stem (last (fst item))]) then
                    (case video_file_name of
                       JStr name \<Rightarrow>
                         if hashable uid then
                           Inr (dict_set vids uid
                                  \<lparr>annotation_path = fst item,
                                   video_path = butlast (fst item) @ [stem (last (fst item))]
                                                  @ (if name = [] then [] else [name]),
                                   clips = None\<rparr>)
                         else Inl TypeError
                     | _ \<Rightarrow> Inl TypeError)
                  else Inr vids)))))
              else Inr vids)
          else Inr vids)"

fun discover_loop ::
  "filesystem \<Rightarrow> (json \<times> video) list \<Rightarrow> (path \<times> node) list \<Rightarrow> error + (json \<times> video) list" where
  "discover_loop fs vids [] = Inr vids"
| "discover_loop fs vids (item # rest) =
     bind (discover_item fs vids item) (\<lambda>vids'. discover_loop fs vids' rest)"

definition discover_files :: "filesystem \<Rightarrow> path \<Rightarrow> error + (json \<times> video) list" where
  "discover_files fs root_path = discover_loop fs [] (rglob fs root_path)"

subsection \<open>get\_annotations\<close>

text \<open>Opening and loading an annotation file.\<close>

definition read_json :: "filesystem \<Rightarrow> path \<Rightarrow> error + json" where
  "read_json fs p =
     (case map_of fs p of
        None \<Rightarrow> Inl FileNotFoundError
      | Some Dir \<Rightarrow> Inl IsADirectoryError
      | Some (File None) \<Rightarrow> Inl JSONDecodeError
      | Some (File (Some doc)) \<Rightarrow> Inr doc)"

text \<open>Every video gets a fresh \<^verbatim>\<open>AnnotationReader\<close>, whose \<^verbatim>\<open>action_dict\<close> is empty.\<close>

fun annotation_loop ::
  "(json \<Rightarrow> string) \<Rightarrow> filesystem \<Rightarrow> (json \<times> action_dict) list \<Rightarrow> (json \<times> video) list
     \<Rightarrow> error + (json \<times> action_dict) list" where
  "annotation_loop repr fs annotations [] = Inr annotations"
| "annotation_loop repr fs annotations (kv # rest) =
     bind (read_json fs (annotation_path (snd kv))) (\<lambda>doc.
     bind (extract_annotations repr [] doc) (\<lambda>action_dict.
       annotation_loop repr fs (dict_set annotations (fst kv) action_dict) rest))"

definition get_annotations ::
  "(json \<Rightarrow> string) \<Rightarrow> filesystem \<Rightarrow> (json \<times> video) list \<Rightarrow> error + (json \<times> action_dict) list" where
  "get_annotations repr fs vids =
     annotation_loop repr fs (map (\<lambda>kv. (fst kv, [])) vids) vids"

subsection \<open>create\_clips\<close>

text \<open>
  One emitted clip: the call of the video library, which cuts \<open>source\<close> from \<open>t_from\<close> to
  \<open>t_to\<close> into \<open>target\<close>, together with the identifier, the label and the file name the
  clip was made for.
\<close>

record written_clip =
  clip_uid :: string
  clip_action :: string
  clip_name :: string
  source :: path
  t_from :: real
  t_to :: real
  target :: path

text \<open>
  What \<^verbatim>\<open>create_clips\<close> reads and writes while it runs: \<^verbatim>\<open>self.videos\<close>, the dictionary
  \<^verbatim>\<open>stats_dict\<close> it returns, the local variables \<^verbatim>\<open>n_chunks\<close> and \<^verbatim>\<open>output_path\<close>
  (\<open>None\<close> while they are unbound), and the clips written so far.
\<close>

record run_state =
  videos :: "(json \<times> video) list"
  stats_dict :: "(string \<times> int) list"
  n_chunks_var :: "int option"
  output_path_var :: "path option"
  written :: "written_clip list"

text \<open>
  \<^verbatim>\<open>
  if action not in self.videos[uid]["clips"]:
      self.videos[uid]["clips"][action] = [filename]
  else:
      self.videos[uid]["clips"][action].append(filename)
  \<close>
\<close>

definition add_clip :: "video \<Rightarrow> string \<Rightarrow> string \<Rightarrow> error + video" where
  "add_clip v action filename =
     (case clips v of
        None \<Rightarrow> Inl KeyError
      | Some c \<Rightarrow>
          Inr (v\<lparr>clips := Some (case map_of c action of
                                    None \<Rightarrow> str_dict_set c action [filename]
                                  | Some files \<Rightarrow> str_dict_set c action (files @ [filename]))\<rparr>))"

text \<open>
  \<^verbatim>\<open>for chunk in range(n_chunks)\<close>: the loop over the chunk indices still to do, with the
  running \<^verbatim>\<open>t_start\<close>.
\<close>

fun chunk_loop ::
  "settings \<Rightarrow> string \<Rightarrow> string \<Rightarrow> nat \<Rightarrow> real \<Rightarrow> run_state \<Rightarrow> nat list \<Rightarrow> error + run_state" where
  "chunk_loop args uid action action_index t_start st [] = Inr st"
| "chunk_loop args uid action action_index t_start st (chunk # rest) =
     (let t_end = t_start + clip_length args in
      bind (dict_lookup (videos st) (JStr uid)) (\<lambda>v.
      let filename = construct_video_filename uid action action_index chunk in
      bind (if preserve_folder_structure args
            then construct_preserved_output_path (data_path args) (video_path v)
                   (output_path args) filename
            else Inr (output_path args @ [filename])) (\<lambda>out.
      bind (add_clip v action filename) (\<lambda>v'.
        chunk_loop args uid action action_index t_end
          (st\<lparr>videos := dict_set (videos st) (JStr uid) v',
               output_path_var := Some out,
               written := written st @
                 [\<lparr>clip_uid = uid, clip_action = action, clip_name = filename,
                   source = video_path v, t_from = t_start, t_to = t_end, target = out\<rparr>]\<rparr>)
          rest))))"

text \<open>
  The body of \<^verbatim>\<open>for t_segment in self.annotations[uid][action]\<close>. The warning for a short
  segment is only logged: the statements after it run all the same.
\<close>

definition process_segment ::
  "settings \<Rightarrow> string \<Rightarrow> string \<Rightarrow> (string \<times> nat) list \<times> run_state \<Rightarrow> json \<times> json
     \<Rightarrow> error + (string \<times> nat) list \<times> run_state" where
  "process_segment args uid action ts t_segment =
     (let action_tracker_per_video =
            (case map_of (fst ts) action of
               Some i \<Rightarrow> str_dict_set (fst ts) action (i + 1)
             | None \<Rightarrow> str_dict_set (fst ts) action 0);
          st = snd ts
      in case (py_num (snd t_segment), py_num (fst t_segment)) of
           (Some t1, Some t0) \<Rightarrow>
             (let len_t_segment = t1 - t0 in
              if clip_length args = 0 then Inl ZeroDivisionError
              else
                let n_chunks = \<lfloor>len_t_segment / clip_length args\<rfloor>;
                    t_start = t0 + (len_t_segment - of_int n_chunks * clip_length args) / 2
                in
                bind (case map_of action_tracker_per_video action of
                        None \<Rightarrow> Inl KeyError | Some i \<Rightarrow> Inr i) (\<lambda>action_index.
                bind (chunk_loop args uid action action_index t_start
                        (st\<lparr>n_chunks_var := Some n_chunks\<rparr>) [0..<nat n_chunks]) (\<lambda>st'.
                  Inr (action_tracker_per_video,
                       st'\<lparr>stats_dict :=
                             (case map_of (stats_dict st') action of
                                Some c \<Rightarrow> str_dict_set (stats_dict st') action (c + n_chunks)
                              | None \<Rightarrow> str_dict_set (stats_dict st') action n_chunks)\<rparr>))))
         | _ \<Rightarrow> Inl TypeError)"

fun segment_loop ::
  "settings \<Rightarrow> string \<Rightarrow> string \<Rightarrow> (string \<times> nat) list \<times> run_state \<Rightarrow> (json \<times> json) list
     \<Rightarrow> error + (string \<times> nat) list \<times> run_state" where
  "segment_loop args uid action ts [] = Inr ts"
| "segment_loop args uid action ts (t_segment # rest) =
     bind (process_segment args uid action ts t_segment) (\<lambda>ts'.
       segment_loop args uid action ts' rest)"

text \<open>
  The body of \<^verbatim>\<open>for action in sorted(self.annotations[uid], ...)\<close>. The message logged
  after the segments of a label reads \<^verbatim>\<open>n_chunks\<close> and \<^verbatim>\<open>output_path.parent\<close>: it raises
  \<^verbatim>\<open>UnboundLocalError\<close> while either variable has never been assigned.
\<close>

definition process_action ::
  "settings \<Rightarrow> string \<Rightarrow> action_dict \<Rightarrow> (string \<times> nat) list \<times> run_state \<Rightarrow> string
     \<Rightarrow> error + (string \<times> nat) list \<times> run_state" where
  "process_action args uid annotation ts action =
     bind (case map_of annotation action of None \<Rightarrow> Inl KeyError | Some segs \<Rightarrow> Inr segs)
       (\<lambda>segs.
     bind (segment_loop args uid action ts segs) (\<lambda>ts'.
       if n_chunks_var (snd ts') = None \<or> output_path_var (snd ts') = None
       then Inl UnboundLocalError else Inr ts'))"

fun action_loop ::
  "settings \<Rightarrow> string \<Rightarrow> action_dict \<Rightarrow> (string \<times> nat) list \<times> run_state \<Rightarrow> string list
     \<Rightarrow> error + (string \<times> nat) list \<times> run_state" where
  "action_loop args uid annotation ts [] = Inr ts"
| "action_loop args uid annotation ts (action # rest) =
     bind (process_action args uid annotation ts action) (\<lambda>ts'.
       action_loop args uid annotation ts' rest)"

text \<open>The body of \<^verbatim>\<open>for uid in sorted(self.videos, ...)\<close>.\<close>

definition process_video ::
  "settings \<Rightarrow> (json \<times> action_dict) list \<Rightarrow> run_state \<Rightarrow> string \<Rightarrow> error + run_state" where
  "process_video args annotations st uid =
     bind (dict_lookup (videos st) (JStr uid)) (\<lambda>v.
     let st1 = st\<lparr>videos := dict_set (videos st) (JStr uid) (v\<lparr>clips := Some []\<rparr>)\<rparr> in
     bind (dict_lookup annotations (JStr uid)) (\<lambda>annotation.
     bind (action_loop args uid annotation ([], st1) (sort (map fst annotation))) (\<lambda>ts.
       Inr (snd ts))))"

fun video_loop ::
  "settings \<Rightarrow> (json \<times> action_dict) list \<Rightarrow> run_state \<Rightarrow> string list \<Rightarrow> error + run_state" where
  "video_loop args annotations st [] = Inr st"
| "video_loop args annotations st (uid # rest) =
     bind (process_video args annotations st uid) (\<lambda>st'.
       video_loop args annotations st' rest)"

text \<open>
  The sort key \<^verbatim>\<open>s.encode("utf-8")\<close> exists on strings only; the encoded strings are
  compared byte by byte, which is the order of \<open>string\<close> here.
\<close>

fun encode_keys :: "json list \<Rightarrow> error + string list" where
  "encode_keys [] = Inr []"
| "encode_keys (JStr s # rest) = bind (encode_keys rest) (\<lambda>ss. Inr (s # ss))"
| "encode_keys (k # rest) = Inl AttributeError"

text \<open>
  \<^verbatim>\<open>create_clips\<close>, from \<^verbatim>\<open>self.videos\<close> and \<^verbatim>\<open>self.annotations\<close>. The returned state holds
  the updated \<^verbatim>\<open>self.videos\<close>, the \<^verbatim>\<open>stats_dict\<close> the method returns and the clips written.
\<close>

definition create_clips ::
  "settings \<Rightarrow> (json \<times> video) list \<Rightarrow> (json \<times> action_dict) list \<Rightarrow> error + run_state" where
  "create_clips args vids annotations =
     bind (encode_keys (map fst vids)) (\<lambda>uids.
       video_loop args annotations
         \<lparr>videos = vids, stats_dict = [], n_chunks_var = None, output_path_var = None,
          written = []\<rparr>
         (sort uids))"

subsection \<open>create\_jsonl\_file\<close>

text \<open>
  \<^verbatim>\<open>f'{{"{video_key}:":"{clip_file}","{class_key}":"{action}"}}\n'\<close>, with the double quote
  and the line feed written by their codes.
\<close>

definition manifest_line :: "string \<Rightarrow> string \<Rightarrow> string \<Rightarrow> string \<Rightarrow> string" where
  "manifest_line video_key class_key clip_file action =
     ''{'' @ [CHR 0x22] @ video_key @ '':'' @ [CHR 0x22] @ '':'' @ [CHR 0x22] @ clip_file
       @ [CHR 0x22] @ '','' @ [CHR 0x22] @ class_key @ [CHR 0x22] @ '':'' @ [CHR 0x22] @ action
       @ [CHR 0x22] @ ''}'' @ [CHR 0x0A]"

text \<open>The lines written for one video: its labels and their clips in dictionary order.\<close>

definition video_lines :: "string \<Rightarrow> string \<Rightarrow> video \<Rightarrow> error + string list" where
  "video_lines video_key class_key v =
     (case clips v of
        None \<Rightarrow> Inl KeyError
      | Some c \<Rightarrow>
          Inr (concat (map (\<lambda>kv. map (\<lambda>clip_file. manifest_line video_key class_key clip_file (fst kv))
                                    (snd kv)) c)))"

text \<open>\<^verbatim>\<open>for uid in self.videos\<close>: the videos in the order of the dictionary.\<close>

fun create_jsonl_file :: "(json \<times> video) list \<Rightarrow> string \<Rightarrow> string \<Rightarrow> error + string list" where
  "create_jsonl_file [] video_key class_key = Inr []"
| "create_jsonl_file (kv # rest) video_key class_key =
     bind (video_lines video_key class_key (snd kv)) (\<lambda>ls.
     bind (create_jsonl_file rest video_key class_key) (\<lambda>ls'. Inr (ls @ ls')))"

section \<open>The whole run (main.py)\<close>

text \<open>
  Discovery, parsing, chunking, then the manifest with the default key names. The result
  is the final state of \<^verbatim>\<open>create_clips\<close> (its \<open>stats_dict\<close> is what \<^verbatim>\<open>save_stats\<close> writes)
  and the lines of the manifest.
\<close>

definition main ::
  "(json \<Rightarrow> string) \<Rightarrow> filesystem \<Rightarrow> settings \<Rightarrow> error + run_state \<times> string list" where
  "main repr fs args =
     bind (discover_files fs (data_path args)) (\<lambda>vids.
     bind (get_annotations repr fs vids) (\<lambda>annotations.
     bind (create_clips args vids annotations) (\<lambda>st.
     bind (create_jsonl_file (videos st) ''image'' ''label'') (\<lambda>manifest.
       Inr (st, manifest)))))"

section \<open>Notions used in the statements and proofs\<close>

text \<open>
  What one metadata record adds to \<^verbatim>\<open>action_dict\<close>: nothing, or one interval under one
  label. The loop of the reader stores the contributions of the records one after another.
\<close>

type_synonym contribution = "string \<times> (json \<times> json)"

definition entry_contribution ::
  "(json \<Rightarrow> string) \<Rightarrow> (string \<times> json) list \<Rightarrow> json \<Rightarrow> error + contribution list" where
  "entry_contribution repr tbl entry =
     bind (resolve_action repr tbl entry) (\<lambda>action.
     bind (getitem entry (JStr ''z'')) (\<lambda>z.
     bind (py_len z) (\<lambda>n.
       if n = 2 then
         bind (getitem z (JInt 0)) (\<lambda>t_start.
         bind (getitem z (JInt 1)) (\<lambda>t_end. Inr [(action, (t_start, t_end))]))
       else Inr [])))"

fun loop_contributions ::
  "(json \<Rightarrow> string) \<Rightarrow> (string \<times> json) list \<Rightarrow> json \<Rightarrow> json list
     \<Rightarrow> error + contribution list" where
  "loop_contributions repr tbl md [] = Inr []"
| "loop_contributions repr tbl md (k # ks) =
     bind (getitem md k) (\<lambda>entry.
     bind (entry_contribution repr tbl entry) (\<lambda>c.
     bind (loop_contributions repr tbl md ks) (\<lambda>cs. Inr (c @ cs))))"

definition store_all :: "contribution list \<Rightarrow> action_dict \<Rightarrow> action_dict" where
  "store_all cs ad = fold (\<lambda>c acc. append_interval acc (fst c) (snd c)) cs ad"

definition intervals_of :: "contribution list \<Rightarrow> string \<Rightarrow> (json \<times> json) list" where
  "intervals_of cs l = map snd (filter (\<lambda>c. fst c = l) cs)"

definition nonempty_lists :: "action_dict \<Rightarrow> bool" where
  "nonempty_lists ad = list_all (\<lambda>kv. snd kv \<noteq> []) ad"

text \<open>The label table a document declares: the options of attribute \<open>1\<close>.\<close>

definition label_table :: "json \<Rightarrow> error + (string \<times> json) list" where
  "label_table doc =
     bind (getitem doc (JStr ''attribute'')) (\<lambda>attribute.
     bind (getitem attribute (JStr ''1'')) (\<lambda>attribute1.
     bind (getitem attribute1 (JStr ''options'')) py_items))"

text \<open>
  The text of a line holding a record of two string fields,
  \<^verbatim>\<open>{"key1":"value1","key2":"value2"}\<close> and a line feed.
\<close>

definition two_field_record :: "string \<Rightarrow> string \<Rightarrow> string \<Rightarrow> string \<Rightarrow> string" where
  "two_field_record key1 value1 key2 value2 =
     ''{'' @ [CHR 0x22] @ key1 @ [CHR 0x22] @ '':'' @ [CHR 0x22] @ value1 @ [CHR 0x22] @ '',''
       @ [CHR 0x22] @ key2 @ [CHR 0x22] @ '':'' @ [CHR 0x22] @ value2 @ [CHR 0x22] @ ''}''
       @ [CHR 0x0A]"



text \<open>The update of a clip dictionary that \<^verbatim>\<open>create_clips\<close> makes for one clip, and for a list of clips.\<close>

definition add_file :: "(string \<times> string list) list \<Rightarrow> string \<Rightarrow> string \<Rightarrow> (string \<times> string list) list" where
  "add_file c a f =
     (case map_of c a of
        None \<Rightarrow> str_dict_set c a [f]
      | Some files \<Rightarrow> str_dict_set c a (files @ [f]))"

definition add_pairs :: "(string \<times> string) list \<Rightarrow> (string \<times> string list) list \<Rightarrow> (string \<times> string list) list" where
  "add_pairs ps c = fold (\<lambda>p acc. add_file acc (snd p) (fst p)) ps c"








text \<open>
  The count \<^verbatim>\<open>stats_dict\<close> holds for a label (zero for a label it lacks), and the number
  of clips emitted with the label.
\<close>

definition stats_count :: "run_state \<Rightarrow> string \<Rightarrow> int" where
  "stats_count st l = (case map_of (stats_dict st) l of None \<Rightarrow> 0 | Some n \<Rightarrow> n)"

definition emitted :: "run_state \<Rightarrow> string \<Rightarrow> nat" where
  "emitted st l = length (filter (\<lambda>w. clip_action w = l) (written st))"

text \<open>For every label the count is the number of emitted clips.\<close>

definition counts_agree :: "run_state \<Rightarrow> bool" where
  "counts_agree st \<longleftrightarrow> (\<forall>l. stats_count st l = int (emitted st l))"

text \<open>An interval whose end is not before its start, and annotations with such intervals only.\<close>

definition forward :: "json \<times> json \<Rightarrow> bool" where
  "forward seg =
     (case (py_num (fst seg), py_num (snd seg)) of
        (Some s, Some e) \<Rightarrow> s \<le> e
      | _ \<Rightarrow> True)"

definition all_forward :: "(json \<times> action_dict) list \<Rightarrow> bool" where
  "all_forward anns = list_all (\<lambda>kv. list_all (\<lambda>ls. list_all forward (snd ls)) (snd kv)) anns"


section \<open>Example data\<close>

text \<open>
  An annotation document in the format of the test data: a project identifier, the label
  table of attribute \<open>1\<close>, the file name of the recording and the metadata records.
\<close>

definition record_of :: "string \<Rightarrow> json list \<Rightarrow> json" where
  "record_of code z = JObj [(''av'', JObj [(''1'', JStr code)]), (''z'', JArr z)]"

definition document_of :: "string \<Rightarrow> (string \<times> json) list \<Rightarrow> (string \<times> json) list \<Rightarrow> json" where
  "document_of pid options metadata =
     JObj [(''project'', JObj [(''pid'', JStr pid)]),
           (''attribute'', JObj [(''1'', JObj [(''options'', JObj options)])]),
           (''file'', JObj [(''1'', JObj [(''fname'', JStr ''test_video.mp4'')])]),
           (''metadata'', JObj metadata)]"

definition colours :: "(string \<times> json) list" where
  "colours = [(''0'', JStr ''grey''), (''1'', JStr ''white''), (''2'', JStr ''red'')]"

text \<open>Four intervals under three labels, and a record with a single time value.\<close>

definition example_doc :: json where
  "example_doc = document_of ''e89d7c6e33e5a806'' colours
     [(''1_a'', record_of ''0'' [JInt 0, JFloat (49695 / 1000)]),
      (''1_b'', record_of ''1'' [JFloat (49715 / 1000), JFloat (74145 / 1000)]),
      (''1_c'', record_of ''2'' [JFloat (74165 / 1000), JFloat (115065 / 1000)]),
      (''1_d'', record_of ''0'' [JFloat (225365 / 1000), JFloat (259365 / 1000)]),
      (''1_e'', record_of ''1'' [JFloat (1205 / 10)])]"

definition example_annotations :: action_dict where
  "example_annotations =
     [(''grey'', [(JInt 0, JFloat (49695 / 1000)),
                  (JFloat (225365 / 1000), JFloat (259365 / 1000))]),
      (''white'', [(JFloat (49715 / 1000), JFloat (74145 / 1000))]),
      (''red'', [(JFloat (74165 / 1000), JFloat (115065 / 1000))])]"

text \<open>A record whose end lies before its start.\<close>

definition reversed_doc :: json where
  "reversed_doc = document_of ''u1'' colours [(''1_a'', record_of ''2'' [JFloat 5, JFloat 3])]"

text \<open>A record whose label code is not in the table.\<close>

definition unknown_code_doc :: json where
  "unknown_code_doc = document_of ''u1'' colours [(''1_a'', record_of ''7'' [JInt 1, JInt 5])]"

text \<open>One interval of one second; one of four seconds; one of four seconds and one reversed.\<close>

definition short_doc :: json where
  "short_doc = document_of ''u1'' colours [(''1_a'', record_of ''2'' [JInt 0, JInt 1])]"

definition one_clip_doc :: "string \<Rightarrow> json" where
  "one_clip_doc pid = document_of pid colours [(''1_a'', record_of ''2'' [JInt 0, JInt 4])]"

definition backwards_doc :: json where
  "backwards_doc = document_of ''u1'' colours
     [(''1_a'', record_of ''2'' [JInt 0, JInt 4]), (''1_b'', record_of ''2'' [JInt 5, JInt 3])]"

text \<open>
  A data folder as in the test data: the annotation file, the folder of the same name
  beside it, and the recording in that folder (a file that is not JSON).
\<close>

definition recording_tree :: "string \<Rightarrow> json \<Rightarrow> filesystem" where
  "recording_tree name doc =
     [([''data'', name @ ''.json''], File (Some doc)),
      ([''data'', name], Dir),
      ([''data'', name, ''test_video.mp4''], File None)]"



text \<open>Settings with the default clip length of four seconds and a flat output folder.\<close>

definition flat_settings :: settings where
  "flat_settings = \<lparr>data_path = [''data''], output_path = [''out''],
                     preserve_folder_structure = False, clip_length = 4\<rparr>"

text \<open>The state of \<^verbatim>\<open>create_clips\<close> when it starts on the labels of one discovered video.\<close>

definition test_video :: video where
  "test_video = \<lparr>annotation_path = [''data'', ''rec1.json''],
                  video_path = [''data'', ''rec1'', ''test_video.mp4''], clips = Some []\<rparr>"


section \<open>Properties of the annotation reader\<close>

lemma bind_Inr_iff: "bind m f = Inr y \<longleftrightarrow> (\<exists>x. m = Inr x \<and> f x = Inr y)"
  by (cases m) (simp_all add: bind_def)

lemma bind_Inr [simp]: "bind (Inr x) f = f x"
  by (simp add: bind_def)

lemma bind_Inl [simp]: "bind (Inl e) f = Inl e"
  by (simp add: bind_def)

lemma bind_assoc: "bind (bind m f) g = bind m (\<lambda>x. bind (f x) g)"
  by (cases m) simp_all

lemma bind_if: "bind (if c then a else b) f = (if c then bind a f else bind b f)"
  by simp

lemmas example_defs = document_of_def record_of_def colours_def recording_tree_def
  flat_settings_def

lemmas discovery_defs = discover_files_def rglob_def discover_item_def suffix_def stem_def
  is_dir_def check_valid_annotation_file_def get_annotations_def read_json_def

lemmas chunking_defs = create_clips_def process_video_def process_action_def process_segment_def
  key_eq_def add_clip_def construct_video_filename_def format03_def decimal.simps
  video_lines_def Let_def numeral_2_eq_2

lemmas reader_defs = extract_annotations_def process_entry_def resolve_action_def py_index_def

subsection \<open>No label without an interval\<close>

lemma append_interval_nonempty:
  "nonempty_lists ad \<Longrightarrow> nonempty_lists (append_interval ad a iv)"
  by (induction ad a iv rule: append_interval.induct) (auto simp: nonempty_lists_def)

lemma process_entry_nonempty:
  "nonempty_lists ad \<Longrightarrow> process_entry repr tbl ad entry = Inr ad' \<Longrightarrow> nonempty_lists ad'"
  by (auto simp: process_entry_def bind_Inr_iff append_interval_nonempty split: if_splits)

lemma metadata_loop_nonempty:
  "nonempty_lists ad \<Longrightarrow> metadata_loop repr tbl md ad ks = Inr ad' \<Longrightarrow> nonempty_lists ad'"
proof (induction ks arbitrary: ad)
  case Nil
  then show ?case by simp
next
  case (Cons k ks)
  from Cons.prems(2) obtain entry ad1 where
    "process_entry repr tbl ad entry = Inr ad1" "metadata_loop repr tbl md ad1 ks = Inr ad'"
    by (auto simp: bind_Inr_iff)
  with Cons.IH Cons.prems(1) show ?case
    using process_entry_nonempty by blast
qed

lemma example_doc_parsed:
  "extract_annotations (\<lambda>v. []) [] example_doc = Inr example_annotations"
  by (simp add: example_doc_def example_annotations_def example_defs reader_defs)

text \<open>
  C10: in the dictionary a fresh reader returns, every label has at least one interval.
  The reader only ever adds a label together with its first interval, and only ever
  appends to the list of a label that is present.
\<close>

theorem fresh_parse_labels_nonempty:
  assumes "extract_annotations repr [] doc = Inr ad" and "(l, ivs) \<in> set ad"
  shows "ivs \<noteq> []"
proof -
  have "nonempty_lists []" by (simp add: nonempty_lists_def)
  with assms(1) have "nonempty_lists ad"
    by (auto simp: extract_annotations_def bind_Inr_iff dest: metadata_loop_nonempty)
  with assms(2) show ?thesis by (auto simp: nonempty_lists_def list_all_iff)
qed

theorem fresh_parse_labels_nonempty_witness:
  "extract_annotations (\<lambda>v. []) [] example_doc = Inr example_annotations
   \<and> (''red'', [(JFloat (74165 / 1000), JFloat (115065 / 1000))]) \<in> set example_annotations
   \<and> [(JFloat (74165 / 1000), JFloat (115065 / 1000))] \<noteq> []"
proof -
  have m: "(''red'', [(JFloat (74165 / 1000), JFloat (115065 / 1000))]) \<in> set example_annotations"
    by (simp add: example_annotations_def)
  from fresh_parse_labels_nonempty [OF example_doc_parsed m] example_doc_parsed m
  show ?thesis by simp
qed

subsection \<open>The reader accumulates\<close>

lemma process_entry_contribution:
  "process_entry repr tbl ad entry =
     bind (entry_contribution repr tbl entry) (\<lambda>c. Inr (store_all c ad))"
  by (simp add: process_entry_def entry_contribution_def bind_assoc bind_if store_all_def
      cong: if_cong)

lemma store_all_append: "store_all (xs @ ys) ad = store_all ys (store_all xs ad)"
  by (simp add: store_all_def)

lemma store_all_Cons:
  "store_all (c # cs) ad = store_all cs (append_interval ad (fst c) (snd c))"
  by (simp add: store_all_def)

lemma metadata_loop_contributions:
  "metadata_loop repr tbl md ad ks =
     bind (loop_contributions repr tbl md ks) (\<lambda>cs. Inr (store_all cs ad))"
proof (induction ks arbitrary: ad)
  case Nil
  show ?case by (simp add: store_all_def)
next
  case (Cons k ks)
  show ?case
  proof (cases "getitem md k")
    case (Inl e)
    then show ?thesis by simp
  next
    case (Inr entry)
    show ?thesis
    proof (cases "entry_contribution repr tbl entry")
      case (Inl e)
      with Inr show ?thesis by (simp add: process_entry_contribution)
    next
      case c: (Inr c)
      show ?thesis
      proof (cases "loop_contributions repr tbl md ks")
        case (Inl e)
        with Inr c show ?thesis by (simp add: process_entry_contribution Cons.IH)
      next
        case cs: (Inr cs)
        with Inr c show ?thesis
          by (simp add: process_entry_contribution Cons.IH store_all_append)
      qed
    qed
  qed
qed

lemma map_other_keys:
  "a \<notin> fst ` set rest \<Longrightarrow>
   map (\<lambda>kv. (fst kv, snd kv @ (if fst kv = a then [iv] else []))) rest = rest"
  by (induction rest) auto

lemma append_interval_present:
  "distinct (map fst ad) \<Longrightarrow> a \<in> fst ` set ad \<Longrightarrow>
   append_interval ad a iv = map (\<lambda>kv. (fst kv, snd kv @ (if fst kv = a then [iv] else []))) ad"
proof (induction ad a iv rule: append_interval.induct)
  case (1 a iv)
  then show ?case by simp
next
  case (2 k ivs rest a iv)
  show ?case
  proof (cases "k = a")
    case True
    with "2.prems" have "a \<notin> fst ` set rest" by auto
    with True show ?thesis by (simp add: map_other_keys)
  next
    case False
    with "2.prems" have "a \<in> fst ` set rest" "distinct (map fst rest)" by auto
    with False "2.IH" show ?thesis by simp
  qed
qed

lemma keys_append_interval:
  "map fst (append_interval ad a iv) =
     (if a \<in> fst ` set ad then map fst ad else map fst ad @ [a])"
  by (induction ad a iv rule: append_interval.induct) (auto simp: image_iff)

lemma key_set_append_interval:
  "fst ` set (append_interval ad a iv) = insert a (fst ` set ad)"
proof -
  have "set (map fst (append_interval ad a iv)) = insert a (set (map fst ad))"
    by (auto simp: keys_append_interval)
  then show ?thesis by simp
qed

lemma distinct_append_interval:
  "distinct (map fst ad) \<Longrightarrow> distinct (map fst (append_interval ad a iv))"
  by (simp add: keys_append_interval)

lemma distinct_store_all:
  "distinct (map fst ad) \<Longrightarrow> distinct (map fst (store_all cs ad))"
  by (induction cs arbitrary: ad) (simp_all add: store_all_def distinct_append_interval)

lemma keys_store_all:
  "fst ` set (store_all cs ad) = fst ` set ad \<union> fst ` set cs"
proof (induction cs arbitrary: ad)
  case Nil
  show ?case by (simp add: store_all_def)
next
  case (Cons c cs)
  show ?case by (simp add: store_all_Cons Cons.IH key_set_append_interval)
qed

lemma store_all_present:
  "distinct (map fst ad) \<Longrightarrow> fst ` set cs \<subseteq> fst ` set ad \<Longrightarrow>
   store_all cs ad = map (\<lambda>kv. (fst kv, snd kv @ intervals_of cs (fst kv))) ad"
proof (induction cs arbitrary: ad)
  case Nil
  show ?case by (simp add: store_all_def intervals_of_def)
next
  case (Cons c cs)
  let ?ad1 = "append_interval ad (fst c) (snd c)"
  have in_ad: "fst c \<in> fst ` set ad" using Cons.prems(2) by auto
  have eq1: "?ad1 = map (\<lambda>kv. (fst kv, snd kv @ (if fst kv = fst c then [snd c] else []))) ad"
    using append_interval_present [OF Cons.prems(1) in_ad] .
  have keys1: "map fst ?ad1 = map fst ad"
    using in_ad by (simp add: keys_append_interval)
  have d1: "distinct (map fst ?ad1)" using Cons.prems(1) keys1 by simp
  have s1: "fst ` set cs \<subseteq> fst ` set ?ad1"
    using Cons.prems(2) by (auto simp: key_set_append_interval)
  have "store_all (c # cs) ad = store_all cs ?ad1" by (rule store_all_Cons)
  also have "\<dots> = map (\<lambda>kv. (fst kv, snd kv @ intervals_of cs (fst kv))) ?ad1"
    using Cons.IH [OF d1 s1] .
  also have "\<dots> = map (\<lambda>kv. (fst kv, snd kv @ intervals_of (c # cs) (fst kv))) ad"
    by (subst eq1) (simp add: intervals_of_def)
  finally show ?case .
qed

lemma append_interval_lists:
  "map_of (append_interval ad a iv) l =
     (if l = a then Some ((case map_of ad a of None \<Rightarrow> [] | Some xs \<Rightarrow> xs) @ [iv])
      else map_of ad l)"
  by (induction ad a iv rule: append_interval.induct) auto

lemma store_all_lists:
  "(case map_of (store_all cs ad) l of None \<Rightarrow> [] | Some xs \<Rightarrow> xs) =
     (case map_of ad l of None \<Rightarrow> [] | Some xs \<Rightarrow> xs) @ intervals_of cs l"
proof (induction cs arbitrary: ad)
  case Nil
  show ?case by (simp add: store_all_def intervals_of_def)
next
  case (Cons c cs)
  show ?case
    by (simp add: store_all_Cons Cons.IH append_interval_lists intervals_of_def)
qed

lemma store_all_twice:
  "store_all cs (store_all cs []) = map (\<lambda>kv. (fst kv, snd kv @ snd kv)) (store_all cs [])"
proof -
  let ?A = "store_all cs []"
  have d: "distinct (map fst ?A)" by (rule distinct_store_all) simp
  have k: "fst ` set cs \<subseteq> fst ` set ?A"
    by (simp add: keys_store_all)
  have "store_all cs ?A = map (\<lambda>kv. (fst kv, snd kv @ intervals_of cs (fst kv))) ?A"
    using store_all_present [OF d k] .
  also have "\<dots> = map (\<lambda>kv. (fst kv, snd kv @ snd kv)) ?A"
  proof (rule map_cong [OF refl])
    fix kv assume m: "kv \<in> set ?A"
    then have "map_of ?A (fst kv) = Some (snd kv)" using d by simp
    then have "snd kv = intervals_of cs (fst kv)"
      using store_all_lists [of cs "[]" "fst kv"] by simp
    then show "(fst kv, snd kv @ intervals_of cs (fst kv)) = (fst kv, snd kv @ snd kv)" by simp
  qed
  finally show ?thesis .
qed

text \<open>
  C9: \<^verbatim>\<open>extract_annotations\<close> is not idempotent on one reader. The first call on a fresh
  reader leaves its result in the reader's \<^verbatim>\<open>action_dict\<close>; a second call on the same file
  appends to it, and returns the same labels in the same order with every list of
  intervals followed by a second copy of itself.
\<close>

theorem second_call_doubles:
  assumes "extract_annotations repr [] doc = Inr ad"
  shows "extract_annotations repr ad doc = Inr (map (\<lambda>kv. (fst kv, snd kv @ snd kv)) ad)"
proof -
  from assms obtain tbl md ks where
    run: "\<And>ad0. extract_annotations repr ad0 doc = metadata_loop repr tbl md ad0 ks"
    and first: "metadata_loop repr tbl md [] ks = Inr ad"
    by (auto simp: extract_annotations_def bind_Inr_iff)
  from first obtain cs where
    cs: "loop_contributions repr tbl md ks = Inr cs" and ad: "ad = store_all cs []"
    by (auto simp: metadata_loop_contributions bind_Inr_iff)
  have "extract_annotations repr ad doc = Inr (store_all cs ad)"
    by (simp add: run metadata_loop_contributions cs)
  then show ?thesis by (simp add: ad store_all_twice)
qed

theorem second_call_doubles_witness:
  "extract_annotations (\<lambda>v. []) [] example_doc = Inr example_annotations
   \<and> extract_annotations (\<lambda>v. []) example_annotations example_doc =
       Inr [(''grey'', [(JInt 0, JFloat (49695 / 1000)),
                        (JFloat (225365 / 1000), JFloat (259365 / 1000)),
                        (JInt 0, JFloat (49695 / 1000)),
                        (JFloat (225365 / 1000), JFloat (259365 / 1000))]),
            (''white'', [(JFloat (49715 / 1000), JFloat (74145 / 1000)),
                         (JFloat (49715 / 1000), JFloat (74145 / 1000))]),
            (''red'', [(JFloat (74165 / 1000), JFloat (115065 / 1000)),
                       (JFloat (74165 / 1000), JFloat (115065 / 1000))])]"
  using second_call_doubles [OF example_doc_parsed] example_doc_parsed
  by (simp add: example_annotations_def)

subsection \<open>The label of a record\<close>

text \<open>
  A string code that the table lacks is looked up with \<^verbatim>\<open>get\<close>, which returns \<^verbatim>\<open>None\<close>
  and does not raise: the label is the text \<^verbatim>\<open>None\<close>. The handler is reached by an
  unhashable code only.
\<close>

lemma absent_code_label:
  assumes "getitem entry (JStr ''av'') = Inr av" and "getitem av (JStr ''1'') = Inr (JStr code)"
    and "map_of tbl code = None"
  shows "resolve_action repr tbl entry = Inr ''None''"
  using assms by (simp add: resolve_action_def)

lemma unhashable_code_label:
  assumes "getitem entry (JStr ''av'') = Inr av" and "getitem av (JStr ''1'') = Inr code"
    and "\<not> hashable code"
  shows "resolve_action repr tbl entry = Inr (py_str repr code)"
  using assms by (simp add: resolve_action_def)

text \<open>
  C2 (fails on the code): a record with the code \<open>7\<close>, which the label table lacks, is
  stored under the label \<open>None\<close>, not under its raw code \<open>7\<close>.
\<close>

theorem unknown_code_labelled_None:
  "extract_annotations (\<lambda>v. []) [] unknown_code_doc = Inr [(''None'', [(JInt 1, JInt 5)])]"
  by (simp add: unknown_code_doc_def example_defs reader_defs)

subsection \<open>Records with two time values\<close>

lemma loop_contributions_member:
  "loop_contributions repr tbl md ks = Inr cs \<Longrightarrow> k \<in> set ks \<Longrightarrow> getitem md k = Inr entry \<Longrightarrow>
   \<exists>c. entry_contribution repr tbl entry = Inr c \<and> set c \<subseteq> set cs"
proof (induction ks arbitrary: cs)
  case Nil
  then show ?case by simp
next
  case (Cons k' ks)
  from Cons.prems(1) obtain entry' c' cs' where
    e: "getitem md k' = Inr entry'" and c: "entry_contribution repr tbl entry' = Inr c'"
    and r: "loop_contributions repr tbl md ks = Inr cs'" and cs: "cs = c' @ cs'"
    by (auto simp: bind_Inr_iff)
  show ?case
  proof (cases "k = k'")
    case True
    with e Cons.prems(3) have "entry' = entry" by simp
    with c cs show ?thesis by auto
  next
    case False
    with Cons.prems(2) have "k \<in> set ks" by simp
    from Cons.IH [OF r this Cons.prems(3)] cs show ?thesis by auto
  qed
qed

lemma entry_contribution_pair:
  "entry_contribution repr tbl entry = Inr c \<Longrightarrow>
   getitem entry (JStr ''z'') = Inr (JArr [t_start, t_end]) \<Longrightarrow>
   \<exists>action. resolve_action repr tbl entry = Inr action \<and> c = [(action, (t_start, t_end))]"
  by (auto simp: entry_contribution_def bind_Inr_iff py_index_def)

lemma stored_contribution:
  assumes "(action, iv) \<in> set cs"
  shows "\<exists>ivs. (action, ivs) \<in> set (store_all cs []) \<and> iv \<in> set ivs"
proof -
  have "iv \<in> set (intervals_of cs action)"
    using assms by (force simp: intervals_of_def)
  then have m: "iv \<in> set (case map_of (store_all cs []) action of None \<Rightarrow> [] | Some xs \<Rightarrow> xs)"
    by (simp add: store_all_lists)
  then obtain ivs where "map_of (store_all cs []) action = Some ivs" "iv \<in> set ivs"
    by (cases "map_of (store_all cs []) action") auto
  then show ?thesis by (auto dest: map_of_SomeD)
qed

text \<open>
  C4 (fails on the code): the reader compares no end with its start. The record with the
  time field \<open>[5, 3]\<close> is stored as the interval from 5 to 3.
\<close>

theorem reversed_interval_stored:
  "extract_annotations (\<lambda>v. []) [] reversed_doc = Inr [(''red'', [(JFloat 5, JFloat 3)])]
   \<and> (3::real) \<le> 5"
  by (simp add: reversed_doc_def example_defs reader_defs)

text \<open>
  C4 (amended): every metadata record whose time field has exactly two values is kept,
  whatever the order of the two values: in the dictionary a fresh reader returns, the
  pair of the two values stands in the list of the record's label.
\<close>

theorem two_value_record_kept:
  assumes "extract_annotations repr [] doc = Inr ad"
    and "getitem doc (JStr ''metadata'') = Inr (JObj records)"
    and "map_of records rid = Some entry"
    and "getitem entry (JStr ''z'') = Inr (JArr [t_start, t_end])"
  shows "\<exists>tbl action ivs. label_table doc = Inr tbl \<and> resolve_action repr tbl entry = Inr action
           \<and> (action, ivs) \<in> set ad \<and> (t_start, t_end) \<in> set ivs"
proof -
  let ?md = "JObj records"
  let ?ks = "map (\<lambda>kv. JStr (fst kv)) records"
  from assms(1,2) obtain tbl where tbl: "label_table doc = Inr tbl"
    and loop: "metadata_loop repr tbl ?md [] ?ks = Inr ad"
    by (auto simp: extract_annotations_def label_table_def bind_Inr_iff)
  from loop obtain cs where cs: "loop_contributions repr tbl ?md ?ks = Inr cs"
    and ad: "ad = store_all cs []"
    by (auto simp: metadata_loop_contributions bind_Inr_iff)
  have k: "JStr rid \<in> set ?ks" using assms(3) by (force dest: map_of_SomeD)
  have e: "getitem ?md (JStr rid) = Inr entry" using assms(3) by simp
  from loop_contributions_member [OF cs k e] obtain c where
    c: "entry_contribution repr tbl entry = Inr c" "set c \<subseteq> set cs" by blast
  from entry_contribution_pair [OF c(1) assms(4)] obtain action where
    a: "resolve_action repr tbl entry = Inr action" "c = [(action, (t_start, t_end))]" by blast
  with c(2) have "(action, (t_start, t_end)) \<in> set cs" by simp
  from stored_contribution [OF this] tbl a(1) show ?thesis unfolding ad by blast
qed

theorem two_value_record_kept_witness:
  "\<exists>tbl ivs. label_table reversed_doc = Inr tbl
     \<and> resolve_action (\<lambda>v. []) tbl (record_of ''2'' [JFloat 5, JFloat 3]) = Inr ''red''
     \<and> (''red'', ivs) \<in> set [(''red'', [(JFloat 5, JFloat 3)])]
     \<and> (JFloat 5, JFloat 3) \<in> set ivs"
proof -
  have h1: "extract_annotations (\<lambda>v. []) [] reversed_doc = Inr [(''red'', [(JFloat 5, JFloat 3)])]"
    by (simp add: reversed_doc_def example_defs reader_defs)
  have h2: "getitem reversed_doc (JStr ''metadata'')
            = Inr (JObj [(''1_a'', record_of ''2'' [JFloat 5, JFloat 3])])"
    by (simp add: reversed_doc_def document_of_def)
  have h3: "map_of [(''1_a'', record_of ''2'' [JFloat 5, JFloat 3])] ''1_a''
            = Some (record_of ''2'' [JFloat 5, JFloat 3])"
    by simp
  have h4: "getitem (record_of ''2'' [JFloat 5, JFloat 3]) (JStr ''z'')
            = Inr (JArr [JFloat 5, JFloat 3])"
    by (simp add: record_of_def)
  from two_value_record_kept [OF h1 h2 h3 h4] obtain tbl action ivs where
    r: "label_table reversed_doc = Inr tbl"
       "resolve_action (\<lambda>v. []) tbl (record_of ''2'' [JFloat 5, JFloat 3]) = Inr action"
       "(action, ivs) \<in> set [(''red'', [(JFloat 5, JFloat 3)])]"
       "(JFloat 5, JFloat 3) \<in> set ivs"
    by blast
  from r(3) have "action = ''red''" by simp
  with r show ?thesis by blast
qed

section \<open>Properties of the discovery\<close>








section \<open>Properties of the chunking\<close>

lemma str_dict_set_lookup: "map_of (str_dict_set d k x) k = Some x"
  by (induction d k x rule: str_dict_set.induct) simp_all






section \<open>Short and reversed segments\<close>

text \<open>
  A segment that is shorter than a clip, and not reversed, writes nothing and adds zero
  to the count of its label.
\<close>

lemma short_segment_writes_nothing:
  assumes "py_num (fst t_segment) = Some start" and "py_num (snd t_segment) = Some finish"
    and "0 \<le> finish - start" and "finish - start < clip_length args"
  shows "\<exists>tracker'. process_segment args uid action (tracker, st) t_segment =
           Inr (tracker',
                st\<lparr>n_chunks_var := Some 0,
                   stats_dict :=
                     (case map_of (stats_dict st) action of
                        Some c \<Rightarrow> str_dict_set (stats_dict st) action c
                      | None \<Rightarrow> str_dict_set (stats_dict st) action 0)\<rparr>)"
proof -
  have pos: "0 < clip_length args" using assms(3,4) by simp
  have "0 \<le> (finish - start) / clip_length args" "(finish - start) / clip_length args < 1"
    using assms(3,4) pos by simp_all
  then have fl: "\<lfloor>(finish - start) / clip_length args\<rfloor> = 0"
    by (simp add: floor_eq_iff)
  show ?thesis
    using assms(1,2) pos fl
    by (cases "map_of tracker action"; cases "map_of (stats_dict st) action")
       (simp_all add: process_segment_def Let_def str_dict_set_lookup)
qed

text \<open>
  C3 (fails on the code): a recording whose only interval lasts one second, with clips of
  four seconds. No clip is written, so \<^verbatim>\<open>output_path\<close> is still unbound when the message
  after the segments of the label reads it: the run ends with \<^verbatim>\<open>UnboundLocalError\<close>.
\<close>

theorem short_first_label_aborts:
  "main (\<lambda>v. []) (recording_tree ''rec1'' short_doc) flat_settings = Inl UnboundLocalError"
  by (simp add: main_def short_doc_def example_defs discovery_defs reader_defs chunking_defs)

section \<open>The manifest and the counts\<close>

lemma manifest_line_record:
  "manifest_line video_key class_key clip_file action =
     two_field_record (video_key @ '':'') clip_file class_key action"
  by (simp add: manifest_line_def two_field_record_def)

subsection \<open>What the manifest lists\<close>

lemma add_pairs_Nil [simp]: "add_pairs [] c = c"
  by (simp add: add_pairs_def)

lemma add_pairs_Cons [simp]: "add_pairs (p # ps) c = add_pairs ps (add_file c (snd p) (fst p))"
  by (simp add: add_pairs_def)




















































subsection \<open>What the counts hold\<close>

text \<open>
  With a positive clip length and no interval that ends before it starts, every segment
  adds to the count of its label exactly the number of clips it writes, so the counts
  \<^verbatim>\<open>create_clips\<close> returns are the numbers of emitted clips.
\<close>

lemma str_dict_set_map_of:
  "map_of (str_dict_set d k x) l = (if l = k then Some x else map_of d l)"
  by (induction d k x rule: str_dict_set.induct) auto

lemma chunk_loop_count:
  assumes "chunk_loop args uid a idx t st chunks = Inr st'"
  shows "stats_dict st' = stats_dict st
       \<and> (\<exists>ws. written st' = written st @ ws \<and> length ws = length chunks
               \<and> list_all (\<lambda>w. clip_action w = a) ws)"
  using assms
proof (induction chunks arbitrary: t st)
  case Nil
  then show ?case by simp
next
  case (Cons chunk rest)
  from Cons.prems obtain v where v: "dict_lookup (videos st) (JStr uid) = Inr v"
    by (auto simp: Let_def bind_Inr_iff)
  from Cons.prems v obtain out v1 where
    run: "chunk_loop args uid a idx (t + clip_length args)
            (st\<lparr>videos := dict_set (videos st) (JStr uid) v1, output_path_var := Some out,
                written := written st @
                  [\<lparr>clip_uid = uid, clip_action = a,
                    clip_name = construct_video_filename uid a idx chunk,
                    source = video_path v, t_from = t, t_to = t + clip_length args,
                    target = out\<rparr>]\<rparr>) rest = Inr st'"
    by (auto simp: Let_def bind_Inr_iff)
  from Cons.IH [OF run] obtain ws where
    "stats_dict st' = stats_dict st"
    "written st' = (written st @
                  [\<lparr>clip_uid = uid, clip_action = a,
                    clip_name = construct_video_filename uid a idx chunk,
                    source = video_path v, t_from = t, t_to = t + clip_length args,
                    target = out\<rparr>]) @ ws"
    "length ws = length rest" "list_all (\<lambda>w. clip_action w = a) ws"
    by auto
  then show ?case by auto
qed

lemma emitted_append:
  "written st' = written st @ ws \<Longrightarrow> list_all (\<lambda>w. clip_action w = a) ws \<Longrightarrow>
   emitted st' l = emitted st l + (if l = a then length ws else 0)"
  by (auto simp: emitted_def list_all_iff filter_empty_conv filter_id_conv)

lemma process_segment_count:
  assumes run: "process_segment args uid a (tracker, st) seg = Inr (tracker', st')"
    and pos: "0 < clip_length args" and fwd: "forward seg" and inv: "counts_agree st"
  shows "counts_agree st'"
proof -
  from run obtain t0 t1 where nums: "py_num (fst seg) = Some t0" "py_num (snd seg) = Some t1"
    by (cases "py_num (snd seg)"; cases "py_num (fst seg)")
       (auto simp: process_segment_def Let_def)
  let ?n = "\<lfloor>(t1 - t0) / clip_length args\<rfloor>"
  from fwd nums have "t0 \<le> t1" by (simp add: forward_def)
  then have n0: "0 \<le> ?n" using pos by simp
  from run nums pos have "\<exists>idx t st1.
      chunk_loop args uid a idx t (st\<lparr>n_chunks_var := Some ?n\<rparr>) [0..<nat ?n] = Inr st1
      \<and> st' = st1\<lparr>stats_dict :=
                 (case map_of (stats_dict st1) a of
                    Some c \<Rightarrow> str_dict_set (stats_dict st1) a (c + ?n)
                  | None \<Rightarrow> str_dict_set (stats_dict st1) a ?n)\<rparr>"
    by (cases "map_of tracker a") (auto simp: process_segment_def Let_def bind_Inr_iff)
  then obtain idx t st1 where
    loop: "chunk_loop args uid a idx t (st\<lparr>n_chunks_var := Some ?n\<rparr>) [0..<nat ?n] = Inr st1"
    and st': "st' = st1\<lparr>stats_dict :=
                 (case map_of (stats_dict st1) a of
                    Some c \<Rightarrow> str_dict_set (stats_dict st1) a (c + ?n)
                  | None \<Rightarrow> str_dict_set (stats_dict st1) a ?n)\<rparr>"
    by blast
  from chunk_loop_count [OF loop] obtain ws where
    sd: "stats_dict st1 = stats_dict st" and wr: "written st1 = written st @ ws"
    and len: "length ws = nat ?n" and act: "list_all (\<lambda>w. clip_action w = a) ws"
    by auto
  have wr': "written st' = written st @ ws" using wr st' by simp
  have cnt: "stats_count st' l = stats_count st l + (if l = a then ?n else 0)" for l
    unfolding st' stats_count_def sd
    by (cases "map_of (stats_dict st) a") (simp_all add: str_dict_set_map_of)
  show ?thesis
    unfolding counts_agree_def
  proof
    fix l
    have "emitted st' l = emitted st l + (if l = a then length ws else 0)"
      using wr' act by (rule emitted_append)
    with cnt [of l] inv len n0 show "stats_count st' l = int (emitted st' l)"
      by (simp add: counts_agree_def)
  qed
qed

lemma segment_loop_count:
  assumes "segment_loop args uid a (tracker, st) segs = Inr (tracker', st')"
    and "0 < clip_length args" and "list_all forward segs" and "counts_agree st"
  shows "counts_agree st'"
  using assms
proof (induction segs arbitrary: tracker st)
  case Nil
  then show ?case by simp
next
  case (Cons seg rest)
  from Cons.prems(1) obtain tracker1 st1 where
    one: "process_segment args uid a (tracker, st) seg = Inr (tracker1, st1)"
    and more: "segment_loop args uid a (tracker1, st1) rest = Inr (tracker', st')"
    by (auto simp: bind_Inr_iff)
  from Cons.prems(3) have f: "forward seg" "list_all forward rest" by simp_all
  from process_segment_count [OF one Cons.prems(2) f(1) Cons.prems(4)]
  have "counts_agree st1" .
  from Cons.IH [OF more Cons.prems(2) f(2) this] show ?case .
qed

lemma process_action_count:
  assumes "process_action args uid ad (tracker, st) a = Inr (tracker', st')"
    and "0 < clip_length args" and "list_all (\<lambda>ls. list_all forward (snd ls)) ad"
    and "counts_agree st"
  shows "counts_agree st'"
proof -
  from assms(1) obtain segs where segs: "map_of ad a = Some segs"
    and loop: "segment_loop args uid a (tracker, st) segs = Inr (tracker', st')"
    by (auto simp: process_action_def bind_Inr_iff split: if_splits option.splits)
  from segs have "(a, segs) \<in> set ad" by (rule map_of_SomeD)
  with assms(3) have "list_all forward segs" by (auto simp: list_all_iff)
  from segment_loop_count [OF loop assms(2) this assms(4)] show ?thesis .
qed

lemma action_loop_count:
  assumes "action_loop args uid ad (tracker, st) labels = Inr (tracker', st')"
    and "0 < clip_length args" and "list_all (\<lambda>ls. list_all forward (snd ls)) ad"
    and "counts_agree st"
  shows "counts_agree st'"
  using assms
proof (induction labels arbitrary: tracker st)
  case Nil
  then show ?case by simp
next
  case (Cons a rest)
  from Cons.prems(1) obtain tracker1 st1 where
    one: "process_action args uid ad (tracker, st) a = Inr (tracker1, st1)"
    and more: "action_loop args uid ad (tracker1, st1) rest = Inr (tracker', st')"
    by (auto simp: bind_Inr_iff)
  from process_action_count [OF one Cons.prems(2,3,4)] have "counts_agree st1" .
  from Cons.IH [OF more Cons.prems(2,3) this] show ?case .
qed

lemma all_forward_lookup:
  "all_forward anns \<Longrightarrow> dict_lookup anns k = Inr ad \<Longrightarrow>
   list_all (\<lambda>ls. list_all forward (snd ls)) ad"
  by (induction anns k rule: dict_lookup.induct) (auto simp: all_forward_def split: if_splits)

lemma process_video_count:
  assumes "process_video args anns st uid = Inr st'"
    and "0 < clip_length args" and "all_forward anns" and "counts_agree st"
  shows "counts_agree st'"
proof -
  from assms(1) obtain v ad tracker' where
    ad: "dict_lookup anns (JStr uid) = Inr ad"
    and loop: "action_loop args uid ad
                 ([], st\<lparr>videos := dict_set (videos st) (JStr uid) (v\<lparr>clips := Some []\<rparr>)\<rparr>)
                 (sort (map fst ad)) = Inr (tracker', st')"
    by (auto simp: process_video_def Let_def bind_Inr_iff)
  have "counts_agree (st\<lparr>videos := dict_set (videos st) (JStr uid) (v\<lparr>clips := Some []\<rparr>)\<rparr>)"
    using assms(4) by (simp add: counts_agree_def stats_count_def emitted_def)
  from action_loop_count [OF loop assms(2) all_forward_lookup [OF assms(3) ad] this]
  show ?thesis .
qed

lemma video_loop_count:
  assumes "video_loop args anns st uids = Inr st'"
    and "0 < clip_length args" and "all_forward anns" and "counts_agree st"
  shows "counts_agree st'"
  using assms
proof (induction uids arbitrary: st)
  case Nil
  then show ?case by simp
next
  case (Cons uid rest)
  from Cons.prems(1) obtain st1 where
    one: "process_video args anns st uid = Inr st1"
    and more: "video_loop args anns st1 rest = Inr st'"
    by (auto simp: bind_Inr_iff)
  from process_video_count [OF one Cons.prems(2,3,4)] have "counts_agree st1" .
  from Cons.IH [OF more Cons.prems(2,3) this] show ?case .
qed

lemma counts_of_forward_run:
  assumes "create_clips args vids anns = Inr st"
    and "0 < clip_length args" and "all_forward anns"
  shows "stats_count st l = int (length (filter (\<lambda>w. clip_action w = l) (written st)))"
proof -
  from assms(1) obtain uids where
    loop: "video_loop args anns
             \<lparr>videos = vids, stats_dict = [], n_chunks_var = None, output_path_var = None,
              written = []\<rparr> (sort uids) = Inr st"
    by (auto simp: create_clips_def bind_Inr_iff)
  have "counts_agree \<lparr>videos = vids, stats_dict = [], n_chunks_var = None,
                      output_path_var = None, written = []\<rparr>"
    by (simp add: counts_agree_def stats_count_def emitted_def)
  from video_loop_count [OF loop assms(2,3) this] show ?thesis
    by (simp add: counts_agree_def emitted_def)
qed

text \<open>
  C7 (fails on the code): a label with an interval from 0 to 4 and a reversed one from 5
  to 3. One clip is written and the manifest has one line with the label, but the
  reversed interval adds \<open>\<lfloor>-2 / 4\<rfloor> = -1\<close> to the count, which ends at 0.
\<close>

theorem backwards_interval_lowers_count:
  "\<exists>st. main (\<lambda>v. []) (recording_tree ''rec1'' backwards_doc) flat_settings
         = Inr (st, [manifest_line ''image'' ''label'' ''u1_red_000_000.mp4'' ''red''])
       \<and> stats_dict st = [(''red'', 0)]"
  by (simp add: main_def backwards_doc_def example_defs discovery_defs reader_defs chunking_defs)

text \<open>
  C8 (fails on the code): the first key of a manifest line is the video key followed by
  a colon, \<open>image:\<close> for the default, not the video key itself.
\<close>

theorem manifest_key_ends_in_colon:
  "\<exists>st. main (\<lambda>v. []) (recording_tree ''rec1'' (one_clip_doc ''u1'')) flat_settings
         = Inr (st, [two_field_record ''image:'' ''u1_red_000_000.mp4'' ''label'' ''red''])
       \<and> two_field_record ''image:'' ''u1_red_000_000.mp4'' ''label'' ''red''
           \<noteq> two_field_record ''image'' ''u1_red_000_000.mp4'' ''label'' ''red''"
  by (simp add: main_def one_clip_doc_def example_defs discovery_defs reader_defs chunking_defs
      manifest_line_def two_field_record_def)

end
